theory Spec2Isabelle
  imports Main
begin

section \<open>JavaScript strings\<close>

text \<open>
  A JavaScript string is a sequence of UTF-16 code units. A code unit is modelled by its
  numeric value, an integer; every JavaScript string is such a list, so a statement about
  all lists covers all strings. \<open>js\<close> turns an ASCII literal into such a sequence.
\<close>

type_synonym cu = int
type_synonym jstring = "cu list"

definition js :: "string \<Rightarrow> jstring" where
  "js s = map of_char s"

definition cc :: "char \<Rightarrow> cu" where
  "cc c = of_char c"

text \<open>WhiteSpace and LineTerminator of ECMAScript: what \<open>\s\<close> matches and \<open>trim\<close> strips.\<close>

definition isSpace :: "cu \<Rightarrow> bool" where
  "isSpace c = (c = 9 \<or> c = 10 \<or> c = 11 \<or> c = 12 \<or> c = 13 \<or> c = 32 \<or> c = 160 \<or>
     c = 5760 \<or> (8192 \<le> c \<and> c \<le> 8202) \<or> c = 8232 \<or> c = 8233 \<or> c = 8239 \<or>
     c = 8287 \<or> c = 12288 \<or> c = 65279)"

text \<open>The characters \<open>.\<close> does not match (no \<open>s\<close> flag).\<close>

definition isLineTerminator :: "cu \<Rightarrow> bool" where
  "isLineTerminator c = (c = 10 \<or> c = 13 \<or> c = 8232 \<or> c = 8233)"

definition isDigit :: "cu \<Rightarrow> bool" where
  "isDigit c = (48 \<le> c \<and> c \<le> 57)"

text \<open>\<open>\w\<close>, which decides \<open>\b\<close>: letters, digits and the underscore.\<close>

definition isWordChar :: "cu \<Rightarrow> bool" where
  "isWordChar c = ((65 \<le> c \<and> c \<le> 90) \<or> (97 \<le> c \<and> c \<le> 122) \<or> isDigit c \<or> c = 95)"

text \<open>
  Matching under the \<open>i\<close> flag (without \<open>u\<close>) compares Canonicalize of the pattern
  character and of the input character: the upper-case forms, except that a code unit of
  value 128 or more never canonicalizes to one below 128. Every character written in a
  pattern of this program is ASCII, so a pattern character \<open>a\<close> and an input \<open>x\<close> agree
  exactly when \<open>a = x\<close> or \<open>a\<close> is the ASCII letter \<open>x\<close> in the other case.
\<close>

definition swapCase :: "cu \<Rightarrow> cu" where
  "swapCase c = (if 65 \<le> c \<and> c \<le> 90 then c + 32
                 else if 97 \<le> c \<and> c \<le> 122 then c - 32 else c)"

definition trim :: "jstring \<Rightarrow> jstring" where
  "trim s = rev (dropWhile isSpace (rev (dropWhile isSpace s)))"

section \<open>Regular expressions\<close>

datatype citem = Ch cu | Rg cu cu | Digit | Space

datatype regex =
    Eps
  | Cls "citem list"
  | NCls "citem list"
  | Dot
  | Seq regex regex
  | Alt regex regex
  | Star regex
  | LStar regex
  | Grp nat regex
  | Look regex
  | NLook regex
  | Bnd
  | Bol
  | Eol

fun inItem :: "bool \<Rightarrow> cu \<Rightarrow> citem \<Rightarrow> bool" where
  "inItem ic x (Ch c) = (x = c \<or> (ic \<and> swapCase x = c))"
| "inItem ic x (Rg a b) = ((a \<le> x \<and> x \<le> b) \<or> (ic \<and> a \<le> swapCase x \<and> swapCase x \<le> b))"
| "inItem ic x Digit = isDigit x"
| "inItem ic x Space = isSpace x"

fun inClass :: "bool \<Rightarrow> cu \<Rightarrow> citem list \<Rightarrow> bool" where
  "inClass ic x [] = False"
| "inClass ic x (i # is) = (if inItem ic x i then True else inClass ic x is)"

text \<open>
  The backtracking matcher of ECMAScript, with the continuation written as a stack of
  frames: \<open>Run r\<close> is a pattern still to be matched, \<open>Progress n\<close> is the check that an
  iteration of a quantifier consumed input (fewer than \<open>n\<close> code units remain), and
  \<open>Close i s0\<close> ends capture group \<open>i\<close> that began when \<open>s0\<close> remained.

  The matcher state is the code unit before the current position (\<open>None\<close> at the start
  of the input), the remaining input and the captures.
\<close>

datatype frame = Run regex | Progress nat | Close nat jstring

type_synonym caps = "(nat \<times> jstring) list"
type_synonym mstate = "cu option \<times> jstring \<times> caps"

definition wordBefore :: "cu option \<Rightarrow> bool" where
  "wordBefore p = (case p of None \<Rightarrow> False | Some c \<Rightarrow> isWordChar c)"

definition wordAfter :: "jstring \<Rightarrow> bool" where
  "wordAfter s = (case s of [] \<Rightarrow> False | c # _ \<Rightarrow> isWordChar c)"

function (sequential) exec :: "bool \<Rightarrow> frame list \<Rightarrow> cu option \<Rightarrow> jstring \<Rightarrow> caps \<Rightarrow> mstate option" where
  "exec ic [] p s c = Some (p, s, c)"
| "exec ic (Run Eps # k) p s c = exec ic k p s c"
| "exec ic (Run (Cls is) # k) p [] c = None"
| "exec ic (Run (Cls is) # k) p (x # xs) c =
     (if inClass ic x is then exec ic k (Some x) xs c else None)"
| "exec ic (Run (NCls is) # k) p [] c = None"
| "exec ic (Run (NCls is) # k) p (x # xs) c =
     (if inClass ic x is then None else exec ic k (Some x) xs c)"
| "exec ic (Run Dot # k) p [] c = None"
| "exec ic (Run Dot # k) p (x # xs) c =
     (if isLineTerminator x then None else exec ic k (Some x) xs c)"
| "exec ic (Run (Seq a b) # k) p s c = exec ic (Run a # Run b # k) p s c"
| "exec ic (Run (Alt a b) # k) p s c =
     (case exec ic (Run a # k) p s c of
        Some r \<Rightarrow> Some r
      | None \<Rightarrow> exec ic (Run b # k) p s c)"
| "exec ic (Run (Star r) # k) p s c =
     (case exec ic (Run r # Progress (length s) # Run (Star r) # k) p s c of
        Some r \<Rightarrow> Some r
      | None \<Rightarrow> exec ic k p s c)"
| "exec ic (Run (LStar r) # k) p s c =
     (case exec ic k p s c of
        Some r \<Rightarrow> Some r
      | None \<Rightarrow> exec ic (Run r # Progress (length s) # Run (LStar r) # k) p s c)"
| "exec ic (Run (Grp i r) # k) p s c = exec ic (Run r # Close i s # k) p s c"
| "exec ic (Run (Look r) # k) p s c =
     (case exec ic [Run r] p s c of
        None \<Rightarrow> None
      | Some _ \<Rightarrow> exec ic k p s c)"
| "exec ic (Run (NLook r) # k) p s c =
     (case exec ic [Run r] p s c of
        None \<Rightarrow> exec ic k p s c
      | Some _ \<Rightarrow> None)"
| "exec ic (Run Bnd # k) p s c =
     (if wordBefore p \<noteq> wordAfter s then exec ic k p s c else None)"
| "exec ic (Run Bol # k) p s c = (if p = None then exec ic k p s c else None)"
| "exec ic (Run Eol # k) p s c = (if s = [] then exec ic k p s c else None)"
| "exec ic (Progress n # k) p s c = (if length s < n then exec ic k p s c else None)"
| "exec ic (Close i s0 # k) p s c =
     exec ic k p s ((i, take (length s0 - length s) s0) # c)"
  by pat_completeness auto

fun rsize :: "regex \<Rightarrow> nat" where
  "rsize (Seq a b) = rsize a + rsize b + 1"
| "rsize (Alt a b) = rsize a + rsize b + 1"
| "rsize (Star r) = rsize r + 2"
| "rsize (LStar r) = rsize r + 2"
| "rsize (Grp i r) = rsize r + 2"
| "rsize (Look r) = rsize r + 1"
| "rsize (NLook r) = rsize r + 1"
| "rsize _ = 1"

fun weight :: "nat \<Rightarrow> frame list \<Rightarrow> nat" where
  "weight n [] = 0"
| "weight n (Run r # k) = rsize r + weight n k"
| "weight n (Progress m # k) = 1 + (if n < m then weight n k else 0)"
| "weight n (Close i s0 # k) = 1 + weight n k"

termination exec
  by (relation "measures [\<lambda>(ic, k, p, s, c). length s, \<lambda>(ic, k, p, s, c). weight (length s) k]")
     auto


section \<open>Writing patterns\<close>

definition chr :: "char \<Rightarrow> regex" where
  "chr c = Cls [Ch (cc c)]"

definition lit :: "string \<Rightarrow> regex" where
  "lit s = foldr (\<lambda>c r. Seq (chr c) r) s Eps"

definition seqs :: "regex list \<Rightarrow> regex" where
  "seqs rs = foldr Seq rs Eps"

fun alts :: "regex list \<Rightarrow> regex" where
  "alts [] = Eps"
| "alts [r] = r"
| "alts (r # rs) = Alt r (alts rs)"

text \<open>
  \<open>r?\<close>, \<open>r+\<close> and \<open>r+?\<close>. No quantified pattern of this program can match the empty
  string or contains a capture group, so \<open>r?\<close> is the choice between \<open>r\<close> and nothing
  and \<open>r+\<close> is \<open>r\<close> followed by \<open>r*\<close>.
\<close>

definition opt :: "regex \<Rightarrow> regex" where
  "opt r = Alt r Eps"

definition plus1 :: "regex \<Rightarrow> regex" where
  "plus1 r = Seq r (Star r)"

definition lplus :: "regex \<Rightarrow> regex" where
  "lplus r = Seq r (LStar r)"

text \<open>\<open>\s*\<close>, \<open>\s+\<close>, \<open>[0-9]\<close>, \<open>[0-9]{1,2}\<close>, \<open>[0-9]{2}\<close>, \<open>[0-9]{2,4}\<close>.\<close>

definition ws :: regex where
  "ws = Star (Cls [Space])"

definition ws1 :: regex where
  "ws1 = plus1 (Cls [Space])"

definition dig :: regex where
  "dig = Cls [Rg (cc CHR ''0'') (cc CHR ''9'')]"

definition dig12 :: regex where
  "dig12 = Seq dig (opt dig)"

definition dig2 :: regex where
  "dig2 = Seq dig dig"

definition dig24 :: regex where
  "dig24 = Seq dig (Seq dig (opt (Seq dig (opt dig))))"

text \<open>A regular expression object: its flag \<open>i\<close> and its pattern.\<close>

type_synonym regexp = "bool \<times> regex"

section \<open>The string and RegExp methods the parser calls\<close>

text \<open>
  The leftmost match: the matcher is tried at every position from the left, the end of the
  input included. The result is the input from the start of the match, with the final
  matcher state.
\<close>

fun search :: "bool \<Rightarrow> regex \<Rightarrow> cu option \<Rightarrow> jstring \<Rightarrow> (jstring \<times> mstate) option" where
  "search ic re p [] =
     (case exec ic [Run re] p [] [] of Some r \<Rightarrow> Some ([], r) | None \<Rightarrow> None)"
| "search ic re p (x # xs) =
     (case exec ic [Run re] p (x # xs) [] of
        Some r \<Rightarrow> Some (x # xs, r)
      | None \<Rightarrow> search ic re (Some x) xs)"

text \<open>
  \<open>s.match(re)\<close> for a pattern without the \<open>g\<close> flag: \<open>None\<close> is \<open>null\<close>; otherwise
  the text before the match, the matched text \<open>m[0]\<close> and the captures.
\<close>

definition reMatch :: "regexp \<Rightarrow> jstring \<Rightarrow> (jstring \<times> jstring \<times> caps) option" where
  "reMatch re s =
     (case search (fst re) (snd re) None s of
        None \<Rightarrow> None
      | Some (s0, (p, s1, c)) \<Rightarrow>
          Some (take (length s - length s0) s, take (length s0 - length s1) s0, c))"

text \<open>\<open>m[i]\<close> for \<open>i > 0\<close>: \<open>None\<close> is \<open>undefined\<close>.\<close>

definition grp :: "caps \<Rightarrow> nat \<Rightarrow> jstring option" where
  "grp c i = map_of c i"

text \<open>\<open>s.match(re)?.[1]\<close>.\<close>

definition match1 :: "regexp \<Rightarrow> jstring \<Rightarrow> jstring option" where
  "match1 re s = (case reMatch re s of None \<Rightarrow> None | Some (b, m, c) \<Rightarrow> grp c 1)"

text \<open>\<open>s.match(re)?.[0]\<close>.\<close>

definition match0 :: "regexp \<Rightarrow> jstring \<Rightarrow> jstring option" where
  "match0 re s = (case reMatch re s of None \<Rightarrow> None | Some (b, m, c) \<Rightarrow> Some m)"

text \<open>\<open>re.test(s)\<close>.\<close>

definition reTest :: "regexp \<Rightarrow> jstring \<Rightarrow> bool" where
  "reTest re s = (reMatch re s \<noteq> None)"

text \<open>\<open>s.search(re)\<close>: the index of the leftmost match; \<open>None\<close> is \<open>-1\<close>.\<close>

definition reSearch :: "regexp \<Rightarrow> jstring \<Rightarrow> nat option" where
  "reSearch re s = (case reMatch re s of None \<Rightarrow> None | Some (b, m, c) \<Rightarrow> Some (length b))"

text \<open>
  \<open>s.replace(re, repl)\<close> without the \<open>g\<close> flag. The replacement is given as a function of
  the captures.
\<close>

definition replaceFirst :: "regexp \<Rightarrow> (caps \<Rightarrow> jstring) \<Rightarrow> jstring \<Rightarrow> jstring" where
  "replaceFirst re repl s =
     (case reMatch re s of
        None \<Rightarrow> s
      | Some (b, m, c) \<Rightarrow> b @ repl c @ drop (length b + length m) s)"

text \<open>
  With the \<open>g\<close> flag, matching resumes at \<open>lastIndex\<close>: the end of the previous match,
  or one code unit further when that match was empty. The scan below visits the
  positions in order; \<open>n\<close> counts the code units still inside the previous match.
\<close>

fun replaceScan :: "bool \<Rightarrow> regex \<Rightarrow> (caps \<Rightarrow> jstring) \<Rightarrow> cu option \<Rightarrow> jstring \<Rightarrow> nat \<Rightarrow> jstring" where
  "replaceScan ic re repl p [] n =
     (case exec ic [Run re] p [] [] of None \<Rightarrow> [] | Some (p', s', c) \<Rightarrow> repl c)"
| "replaceScan ic re repl p (x # xs) n =
     (if 0 < n then replaceScan ic re repl (Some x) xs (n - 1)
      else case exec ic [Run re] p (x # xs) [] of
        None \<Rightarrow> x # replaceScan ic re repl (Some x) xs 0
      | Some (p', s', c) \<Rightarrow>
          (if length s' = length (x # xs)
           then repl c @ x # replaceScan ic re repl (Some x) xs 0
           else repl c @ replaceScan ic re repl (Some x) xs (length xs - length s')))"

definition replaceAll :: "regexp \<Rightarrow> (caps \<Rightarrow> jstring) \<Rightarrow> jstring \<Rightarrow> jstring" where
  "replaceAll re repl s = replaceScan (fst re) (snd re) repl None s 0"

text \<open>\<open>s.matchAll(re)\<close>: the captures of the successive matches.\<close>

fun matchScan :: "bool \<Rightarrow> regex \<Rightarrow> cu option \<Rightarrow> jstring \<Rightarrow> nat \<Rightarrow> caps list" where
  "matchScan ic re p [] n =
     (case exec ic [Run re] p [] [] of None \<Rightarrow> [] | Some (p', s', c) \<Rightarrow> [c])"
| "matchScan ic re p (x # xs) n =
     (if 0 < n then matchScan ic re (Some x) xs (n - 1)
      else case exec ic [Run re] p (x # xs) [] of
        None \<Rightarrow> matchScan ic re (Some x) xs 0
      | Some (p', s', c) \<Rightarrow> c # matchScan ic re (Some x) xs (length xs - length s'))"

definition matchAll :: "regexp \<Rightarrow> jstring \<Rightarrow> caps list" where
  "matchAll re s = matchScan (fst re) (snd re) None s 0"

text \<open>
  \<open>s.split(re)\<close>: the separator is tried at each position \<open>q\<close> before the end; a match
  that ends at the previous split point \<open>p\<close> is skipped. \<open>cur\<close> is the text since \<open>p\<close>.
  The separators of this program have no capture group.
\<close>

fun splitScan :: "bool \<Rightarrow> regex \<Rightarrow> cu option \<Rightarrow> jstring \<Rightarrow> jstring \<Rightarrow> nat \<Rightarrow> jstring list" where
  "splitScan ic re p cur [] n = [cur]"
| "splitScan ic re p cur (x # xs) n =
     (if 0 < n then splitScan ic re (Some x) cur xs (n - 1)
      else case exec ic [Run re] p (x # xs) [] of
        None \<Rightarrow> splitScan ic re (Some x) (cur @ [x]) xs 0
      | Some (p', s', c) \<Rightarrow>
          (if length s' = length (x # xs)
           then (if cur = [] then splitScan ic re (Some x) [x] xs 0
                 else cur # splitScan ic re (Some x) [x] xs 0)
           else cur # splitScan ic re (Some x) [] xs (length xs - length s')))"

definition splitRe :: "regexp \<Rightarrow> jstring \<Rightarrow> jstring list" where
  "splitRe re s =
     (if s = [] then (if exec (fst re) [Run (snd re)] None [] [] = None then [[]] else [])
      else splitScan (fst re) (snd re) None [] s 0)"

text \<open>\<open>s.split("\n")\<close>.\<close>

fun splitLines :: "jstring \<Rightarrow> jstring list" where
  "splitLines [] = [[]]"
| "splitLines (x # xs) =
     (if x = 10 then [] # splitLines xs
      else (case splitLines xs of [] \<Rightarrow> [[x]] | l # ls \<Rightarrow> (x # l) # ls))"

text \<open>\<open>xs.join(sep)\<close>.\<close>

fun join :: "jstring \<Rightarrow> jstring list \<Rightarrow> jstring" where
  "join sep [] = []"
| "join sep [x] = x"
| "join sep (x # xs) = x @ sep @ join sep xs"

text \<open>\<open>a || b\<close> on strings (the empty string is falsy) and on a possibly undefined string.\<close>

definition orElse :: "jstring \<Rightarrow> jstring \<Rightarrow> jstring" where
  "orElse a b = (if a = [] then b else a)"

definition orUndef :: "jstring option \<Rightarrow> jstring \<Rightarrow> jstring" where
  "orUndef a b = (case a of None \<Rightarrow> b | Some v \<Rightarrow> orElse v b)"

text \<open>
  A \<open>Set\<close> keeps its elements in insertion order; \<open>add\<close> of an element already present
  changes nothing. \<open>Array.from(new Set(xs))\<close> adds the elements of \<open>xs\<close> in order.
\<close>

definition setAdd :: "jstring list \<Rightarrow> jstring \<Rightarrow> jstring list" where
  "setAdd acc x = (if x \<in> set acc then acc else acc @ [x])"

definition fromSet :: "jstring list \<Rightarrow> jstring list" where
  "fromSet xs = foldl setAdd [] xs"


section \<open>The parser of CaseSummaryView.js\<close>

definition NA :: jstring where
  "NA = js ''N/A''"

subsection \<open>Helpers\<close>

text \<open>
  \<^verbatim>\<open>const pick = (reArr, text, group = 1, fb = "N/A") => {
    for (const re of reArr) {
      const m = text.match(re);
      if (m && m[group]) return String(m[group]).trim();
    }
    return fb;
  };\<close>
  Every call passes group 1.
\<close>

fun pick :: "regexp list \<Rightarrow> jstring \<Rightarrow> jstring \<Rightarrow> jstring" where
  "pick [] text fb = fb"
| "pick (re # reArr) text fb =
     (case match1 re text of
        None \<Rightarrow> pick reArr text fb
      | Some g \<Rightarrow> if g = [] then pick reArr text fb else trim g)"

subsection \<open>Character classes and label lists of the patterns\<close>

definition letters :: "citem list" where
  "letters = [Rg (cc CHR ''A'') (cc CHR ''Z''), Rg (cc CHR ''a'') (cc CHR ''z'')]"

definition quote :: cu where
  "quote = 39"

text \<open>\<^verbatim>\<open>[A-Za-z0-9 .,&'_-]\<close>\<close>

definition placeClass :: "citem list" where
  "placeClass = letters @ [Rg (cc CHR ''0'') (cc CHR ''9''), Ch (cc CHR '' ''), Ch (cc CHR ''.''),
     Ch (cc CHR '',''), Ch (cc CHR ''&''), Ch quote, Ch (cc CHR ''_''), Ch (cc CHR ''-'')]"

text \<open>\<^verbatim>\<open>[A-Za-z .,&'_-]\<close>\<close>

definition localityClass :: "citem list" where
  "localityClass = letters @ [Ch (cc CHR '' ''), Ch (cc CHR ''.''),
     Ch (cc CHR '',''), Ch (cc CHR ''&''), Ch quote, Ch (cc CHR ''_''), Ch (cc CHR ''-'')]"

text \<open>\<^verbatim>\<open>[A-Za-z0-9\/\-]\<close>\<close>

definition firClass :: "citem list" where
  "firClass = letters @ [Rg (cc CHR ''0'') (cc CHR ''9''), Ch (cc CHR ''/''), Ch (cc CHR ''-'')]"

text \<open>\<^verbatim>\<open>[A-Za-z .'_-]\<close>\<close>

definition complainantClass :: "citem list" where
  "complainantClass = letters @ [Ch (cc CHR '' ''), Ch (cc CHR ''.''), Ch quote,
     Ch (cc CHR ''_''), Ch (cc CHR ''-'')]"

text \<open>\<^verbatim>\<open>[A-Za-z .@'_-]\<close>\<close>

definition accusedClass :: "citem list" where
  "accusedClass = letters @ [Ch (cc CHR '' ''), Ch (cc CHR ''.''), Ch (cc CHR ''@''), Ch quote,
     Ch (cc CHR ''_''), Ch (cc CHR ''-'')]"

text \<open>\<^verbatim>\<open>[A-Za-z .'-]\<close>\<close>

definition nameClass :: "citem list" where
  "nameClass = letters @ [Ch (cc CHR '' ''), Ch (cc CHR ''.''), Ch quote, Ch (cc CHR ''-'')]"

text \<open>\<^verbatim>\<open>[:\-]?\<close>\<close>

definition optSep :: regex where
  "optSep = opt (Cls [Ch (cc CHR '':''), Ch (cc CHR ''-'')])"

text \<open>\<^verbatim>\<open>(?=,|\n|$)\<close> and \<^verbatim>\<open>(?=,|\.|\n|$)\<close>\<close>

definition untilCommaOrLine :: regex where
  "untilCommaOrLine = Look (alts [chr CHR '','', Cls [Ch 10], Eol])"

definition untilCommaDotOrLine :: regex where
  "untilCommaDotOrLine = Look (alts [chr CHR '','', chr CHR ''.'', Cls [Ch 10], Eol])"

text \<open>\<^verbatim>\<open>(?=\s+(?:Age|Address|Designation|Contact|Mobile|Phone|Email|Police|Station|FIR|Date|Time)\b|,|\n|$)\<close>\<close>

definition untilFieldLabel :: regex where
  "untilFieldLabel = Look (alts [
     seqs [ws1, alts (map lit [''Age'', ''Address'', ''Designation'', ''Contact'', ''Mobile'',
       ''Phone'', ''Email'', ''Police'', ''Station'', ''FIR'', ''Date'', ''Time'']), Bnd],
     chr CHR '','', Cls [Ch 10], Eol])"

text \<open>\<^verbatim>\<open>(?=,|\.|\s+(?:Designation|Rank|Police\s*Station|Address|Age|Contact|Mobile|Phone|Email)\b|$)\<close>\<close>

definition untilWitnessLabel :: regex where
  "untilWitnessLabel = Look (alts [chr CHR '','', chr CHR ''.'',
     seqs [ws1, alts [lit ''Designation'', lit ''Rank'',
       seqs [lit ''Police'', ws, lit ''Station''], lit ''Address'', lit ''Age'', lit ''Contact'',
       lit ''Mobile'', lit ''Phone'', lit ''Email''], Bnd],
     Eol])"

text \<open>\<^verbatim>\<open>(?!Survey\s*No\b|FIR\b|First\b|Information\b|Report\b|Police\s*Station\b)\<close>\<close>

definition notBoilerplate :: regex where
  "notBoilerplate = NLook (alts [
     seqs [lit ''Survey'', ws, lit ''No'', Bnd], seqs [lit ''FIR'', Bnd], seqs [lit ''First'', Bnd],
     seqs [lit ''Information'', Bnd], seqs [lit ''Report'', Bnd],
     seqs [lit ''Police'', ws, lit ''Station'', Bnd]])"

subsection \<open>Normalisation\<close>

text \<open>
  \<^verbatim>\<open>const text = raw.replace(/\r\n?/g, "\n");
  const flat = text.replace(/[ \t]+/g, " ").trim();\<close>
\<close>

definition normText :: "jstring \<Rightarrow> jstring" where
  "normText raw = replaceAll (False, Seq (Cls [Ch 13]) (opt (Cls [Ch 10]))) (\<lambda>c. [10]) raw"

definition flatText :: "jstring \<Rightarrow> jstring" where
  "flatText text = trim (replaceAll (False, plus1 (Cls [Ch 32, Ch 9])) (\<lambda>c. js '' '') text)"

subsection \<open>Single-line fields\<close>

text \<open>\<^verbatim>\<open>/\bPolice\s*Station\s*[:\-]?\s*([A-Za-z0-9 .,&'_-]+?)(?=,|\n|$)/i\<close>\<close>

definition policeStationRe :: regexp where
  "policeStationRe = (True, seqs [Bnd, lit ''Police'', ws, lit ''Station'', ws, optSep, ws,
     Grp 1 (lplus (Cls placeClass)), untilCommaOrLine])"

definition policeStationOf :: "jstring \<Rightarrow> jstring" where
  "policeStationOf flat = pick [policeStationRe] flat NA"

text \<open>
  \<^verbatim>\<open>/\bFIR\s*(?:No\.?|Number)\s*[:\-]?\s*([A-Za-z0-9\/\-]+)/i\<close>,
  \<^verbatim>\<open>/\bFIR\s*registered\s*No\.?\s*([A-Za-z0-9\/\-]+)/i\<close>
\<close>

definition firNumberRes :: "regexp list" where
  "firNumberRes = [
     (True, seqs [Bnd, lit ''FIR'', ws, alts [seqs [lit ''No'', opt (chr CHR ''.'')], lit ''Number''],
        ws, optSep, ws, Grp 1 (plus1 (Cls firClass))]),
     (True, seqs [Bnd, lit ''FIR'', ws, lit ''registered'', ws, lit ''No'', opt (chr CHR ''.''), ws,
        Grp 1 (plus1 (Cls firClass))])]"

definition firNumberOf :: "jstring \<Rightarrow> jstring" where
  "firNumberOf flat = pick firNumberRes flat NA"

text \<open>\<^verbatim>\<open>/\bDate\s*[:\-]?\s*([0-9]{1,2}[\/\-\.][0-9]{1,2}[\/\-\.][0-9]{2,4})/i\<close>\<close>

definition dateSep :: regex where
  "dateSep = Cls [Ch (cc CHR ''/''), Ch (cc CHR ''-''), Ch (cc CHR ''.'')]"

definition dateRe :: regexp where
  "dateRe = (True, seqs [Bnd, lit ''Date'', ws, optSep, ws,
     Grp 1 (seqs [dig12, dateSep, dig12, dateSep, dig24])])"

definition dateOf :: "jstring \<Rightarrow> jstring" where
  "dateOf flat = pick [dateRe] flat NA"

text \<open>
  \<^verbatim>\<open>/\bTime\s*[:\-]?\s*([0-9]{1,2}[:.][0-9]{2}\s*(?:AM|PM|am|pm)?)/i\<close>,
  \<^verbatim>\<open>/\b(?:at|around)\s*([0-9]{1,2}[:.][0-9]{2}\s*(?:AM|PM|am|pm)?)/i\<close>,
  \<^verbatim>\<open>/\b([0-9]{1,2}[:.][0-9]{2})\s*(?:hrs|Hrs|hours)?/i\<close>
\<close>

definition clock :: regex where
  "clock = seqs [dig12, Cls [Ch (cc CHR '':''), Ch (cc CHR ''.'')], dig2]"

definition clockAmPm :: regex where
  "clockAmPm = seqs [clock, ws, opt (alts [lit ''AM'', lit ''PM'', lit ''am'', lit ''pm''])]"

definition timeRes :: "regexp list" where
  "timeRes = [
     (True, seqs [Bnd, lit ''Time'', ws, optSep, ws, Grp 1 clockAmPm]),
     (True, seqs [Bnd, alts [lit ''at'', lit ''around''], ws, Grp 1 clockAmPm]),
     (True, seqs [Bnd, Grp 1 clock, ws, opt (alts [lit ''hrs'', lit ''Hrs'', lit ''hours''])])]"

definition timeOf :: "jstring \<Rightarrow> jstring" where
  "timeOf flat = pick timeRes flat NA"

subsection \<open>Blocks between numbered headings\<close>

text \<open>
  \<^verbatim>\<open>const sliceBetween = (startRe, endRe) => {
    const s = text.search(startRe);
    if (s === -1) return "";
    const rest = text.slice(s);
    const e = rest.search(endRe);
    return e === -1 ? rest : rest.slice(0, e);
  };\<close>
\<close>

definition sliceBetween :: "jstring \<Rightarrow> regexp \<Rightarrow> regexp \<Rightarrow> jstring" where
  "sliceBetween text startRe endRe =
     (case reSearch startRe text of
        None \<Rightarrow> []
      | Some s \<Rightarrow>
          (let rest = drop s text in
           case reSearch endRe rest of None \<Rightarrow> rest | Some e \<Rightarrow> take e rest))"


subsection \<open>Complainant and accused\<close>

text \<open>
  \<^verbatim>\<open>const complainantBlock = sliceBetween(/1\.\s*Complainant\s*Details/i, /2\./i);
  const complainant = (
      complainantBlock.match(
        /Name\s*:\s*([A-Za-z .'_-]+?)(?=\s+(?:Age|...|Time)\b|,|\n|$)/i)?.[1]
      || pick([/\bComplainant(?:\s*Name|\s*Details)?\s*:\s*([A-Za-z .'_-]+)/i], flat)
      || "N/A").trim();\<close>
\<close>

definition complainantHeadingRe :: regexp where
  "complainantHeadingRe = (True, seqs [lit ''1.'', ws, lit ''Complainant'', ws, lit ''Details''])"

definition complainantBlockOf :: "jstring \<Rightarrow> jstring" where
  "complainantBlockOf text = sliceBetween text complainantHeadingRe (True, lit ''2.'')"

definition complainantNameRe :: regexp where
  "complainantNameRe = (True, seqs [lit ''Name'', ws, chr CHR '':'', ws,
     Grp 1 (lplus (Cls complainantClass)), untilFieldLabel])"

definition complainantFlatRe :: regexp where
  "complainantFlatRe = (True, seqs [Bnd, lit ''Complainant'',
     opt (alts [seqs [ws, lit ''Name''], seqs [ws, lit ''Details'']]), ws, chr CHR '':'', ws,
     Grp 1 (plus1 (Cls complainantClass))])"

definition complainantOf :: "jstring \<Rightarrow> jstring \<Rightarrow> jstring" where
  "complainantOf text flat =
     trim (orUndef (match1 complainantNameRe (complainantBlockOf text))
             (orElse (pick [complainantFlatRe] flat NA) NA))"

text \<open>
  \<^verbatim>\<open>const accusedBlock = sliceBetween(/2\.\s*Accused\s*Details/i, /3\./i);
  const accused = (
      accusedBlock.match(
        /Name\s*:\s*([A-Za-z .@'_-]+?)(?=\s+(?:Age|...|Time)\b|,|\n|$)/i)?.[1]
      || pick([/\bAccused(?:\s*Name|\s*Details)?\s*:\s*([A-Za-z .@'_-]+)/i], flat)
      || "N/A").trim();\<close>
\<close>

definition accusedHeadingRe :: regexp where
  "accusedHeadingRe = (True, seqs [lit ''2.'', ws, lit ''Accused'', ws, lit ''Details''])"

definition accusedBlockOf :: "jstring \<Rightarrow> jstring" where
  "accusedBlockOf text = sliceBetween text accusedHeadingRe (True, lit ''3.'')"

definition accusedNameRe :: regexp where
  "accusedNameRe = (True, seqs [lit ''Name'', ws, chr CHR '':'', ws,
     Grp 1 (lplus (Cls accusedClass)), untilFieldLabel])"

definition accusedFlatRe :: regexp where
  "accusedFlatRe = (True, seqs [Bnd, lit ''Accused'',
     opt (alts [seqs [ws, lit ''Name''], seqs [ws, lit ''Details'']]), ws, chr CHR '':'', ws,
     Grp 1 (plus1 (Cls accusedClass))])"

definition accusedOf :: "jstring \<Rightarrow> jstring \<Rightarrow> jstring" where
  "accusedOf text flat =
     trim (orUndef (match1 accusedNameRe (accusedBlockOf text))
             (orElse (pick [accusedFlatRe] flat NA) NA))"

subsection \<open>Witnesses\<close>

text \<open>\<^verbatim>\<open>const witnessesBlock = sliceBetween(/5\.\s*Witness(?:es)?/i, /6\./i);\<close>\<close>

definition witnessesBlockOf :: "jstring \<Rightarrow> jstring" where
  "witnessesBlockOf text = sliceBetween text
     (True, seqs [lit ''5.'', ws, lit ''Witness'', opt (lit ''es'')]) (True, lit ''6.'')"

text \<open>
  \<^verbatim>\<open>const cleanPerson = (s) =>
    (s || "")
      .replace(/^\s*(?:Name\s*:\s*)?/i, "")
      .replace(/^(?:SI|ASI|HC|PC|Ct|Inspector|Sub-Inspector)\.?\s+/i, "")
      .replace(/\s+/g, " ")
      .trim();\<close>
\<close>

definition cleanPerson :: "jstring \<Rightarrow> jstring" where
  "cleanPerson s =
     trim (replaceAll (False, ws1) (\<lambda>c. js '' '')
       (replaceFirst (True, seqs [Bol, alts (map lit [''SI'', ''ASI'', ''HC'', ''PC'', ''Ct'',
            ''Inspector'', ''Sub-Inspector'']), opt (chr CHR ''.''), ws1]) (\<lambda>c. [])
         (replaceFirst (True, seqs [Bol, ws, opt (seqs [lit ''Name'', ws, chr CHR '':'', ws])])
            (\<lambda>c. []) s)))"

text \<open>
  \<^verbatim>\<open>for (const line of witnessesBlock.split("\n")) {
    const m = line.match(
      /^\s*(?:-|\d+\.)?\s*([A-Za-z .'-]+?)(?=,|\.|\s+(?:Designation|...|Email)\b|$)/i);
    if (m && m[1]) {
      const name = cleanPerson(m[1]);
      if (name) witnesses.push(name);
    }
  }\<close>
\<close>

definition witnessLineRe :: regexp where
  "witnessLineRe = (True, seqs [Bol, ws,
     opt (alts [chr CHR ''-'', seqs [plus1 (Cls [Digit]), chr CHR ''.'']]), ws,
     Grp 1 (lplus (Cls nameClass)), untilWitnessLabel])"

definition pushWitnessLine :: "jstring list \<Rightarrow> jstring \<Rightarrow> jstring list" where
  "pushWitnessLine acc line =
     (case match1 witnessLineRe line of
        None \<Rightarrow> acc
      | Some g \<Rightarrow>
          if g = [] then acc
          else (let name = cleanPerson g in if name = [] then acc else acc @ [name]))"

text \<open>
  \<^verbatim>\<open>if (witnesses.length === 0) {
    const inline = flat.match(/\bWitness(?:es)?[^:]*:\s*([^.\n]+)/i)?.[1] || "";
    if (inline) {
      for (const chunk of inline.split(/,| and /i)) {
        const name = cleanPerson(
          (chunk || "").match(
            /^\s*([A-Za-z .'-]+?)(?=,|\.|\s+(?:Designation|...|Email)\b|$)/)?.[1] || "");
        if (name) witnesses.push(name);
      }
    }
  }\<close>
  The pattern applied to a chunk has no \<open>i\<close> flag.
\<close>

definition witnessInlineRe :: regexp where
  "witnessInlineRe = (True, seqs [Bnd, lit ''Witness'', opt (lit ''es''),
     Star (NCls [Ch (cc CHR '':'')]), chr CHR '':'', ws,
     Grp 1 (plus1 (NCls [Ch (cc CHR ''.''), Ch 10]))])"

definition witnessChunkRe :: regexp where
  "witnessChunkRe = (False, seqs [Bol, ws, Grp 1 (lplus (Cls nameClass)), untilWitnessLabel])"

definition pushWitnessChunk :: "jstring list \<Rightarrow> jstring \<Rightarrow> jstring list" where
  "pushWitnessChunk acc chunk =
     (let name = cleanPerson (orUndef (match1 witnessChunkRe chunk) [])
      in if name = [] then acc else acc @ [name])"

text \<open>The list before \<^verbatim>\<open>witnesses = Array.from(new Set(witnesses));\<close>\<close>

definition witnessCandidates :: "jstring \<Rightarrow> jstring \<Rightarrow> jstring list" where
  "witnessCandidates text flat =
     (let fromBlock = foldl pushWitnessLine [] (splitLines (witnessesBlockOf text))
      in if fromBlock = []
         then (let inline = orUndef (match1 witnessInlineRe flat) []
               in if inline = [] then []
                  else foldl pushWitnessChunk []
                         (splitRe (True, alts [chr CHR '','', lit '' and '']) inline))
         else fromBlock)"

definition witnessesOf :: "jstring \<Rightarrow> jstring \<Rightarrow> jstring list" where
  "witnessesOf text flat = fromSet (witnessCandidates text flat)"

subsection \<open>Investigating officer\<close>

text \<open>
  \<^verbatim>\<open>const ioBlock = sliceBetween(/7\.\s*Investigating\s*Officer/i, /8\./i);
  const ioInline = pick([
      /\bInvestigating\s*Officer\s*Name\s*:\s*([A-Za-z .'-]+?)(?=,|\.|\n|$)/i,
      /\bIO\s*Name\s*:\s*([A-Za-z .'-]+?)(?=,|\.|\n|$)/i,
      /assigned\s+to\s*([A-Za-z .'-]+?)\s*,\s*Investigating\s*Officer/i,
    ], flat, 1, "");
  let investigatingOfficer = (
      ioBlock.match(/Name\s*:\s*([A-Za-z .'-]+?)(?=\s+(?:Age|...|Time)\b|,|\n|$)/i)?.[1]
      || ioInline || "N/A").trim();\<close>
\<close>

definition ioBlockOf :: "jstring \<Rightarrow> jstring" where
  "ioBlockOf text = sliceBetween text
     (True, seqs [lit ''7.'', ws, lit ''Investigating'', ws, lit ''Officer'']) (True, lit ''8.'')"

definition ioInlineRes :: "regexp list" where
  "ioInlineRes = [
     (True, seqs [Bnd, lit ''Investigating'', ws, lit ''Officer'', ws, lit ''Name'', ws,
        chr CHR '':'', ws, Grp 1 (lplus (Cls nameClass)), untilCommaDotOrLine]),
     (True, seqs [Bnd, lit ''IO'', ws, lit ''Name'', ws, chr CHR '':'', ws,
        Grp 1 (lplus (Cls nameClass)), untilCommaDotOrLine]),
     (True, seqs [lit ''assigned'', ws1, lit ''to'', ws, Grp 1 (lplus (Cls nameClass)), ws,
        chr CHR '','', ws, lit ''Investigating'', ws, lit ''Officer''])]"

definition ioNameRe :: regexp where
  "ioNameRe = (True, seqs [lit ''Name'', ws, chr CHR '':'', ws,
     Grp 1 (lplus (Cls nameClass)), untilFieldLabel])"

definition investigatingOfficerOf :: "jstring \<Rightarrow> jstring \<Rightarrow> jstring" where
  "investigatingOfficerOf text flat =
     trim (orUndef (match1 ioNameRe (ioBlockOf text))
             (orElse (pick ioInlineRes flat []) NA))"

subsection \<open>Sections\<close>

text \<open>
  \<^verbatim>\<open>const sectionsSet = new Set();
  for (const m of text.matchAll(/\bIPC\s*Section\s*(\d+)/gi)) sectionsSet.add(`IPC ${m[1]}`);
  for (const m of text.matchAll(/\bSection\s*(\d+)\s*IPC\b/gi)) sectionsSet.add(`IPC ${m[1]}`);
  const sections = Array.from(sectionsSet);\<close>
  Group 1 takes part in every match of either pattern.
\<close>

definition ipcSectionRe :: regexp where
  "ipcSectionRe = (True, seqs [Bnd, lit ''IPC'', ws, lit ''Section'', ws,
     Grp 1 (plus1 (Cls [Digit]))])"

definition sectionIpcRe :: regexp where
  "sectionIpcRe = (True, seqs [Bnd, lit ''Section'', ws, Grp 1 (plus1 (Cls [Digit])), ws,
     lit ''IPC'', Bnd])"

definition citation :: "caps \<Rightarrow> jstring" where
  "citation m = js ''IPC '' @ (case grp m 1 of None \<Rightarrow> js ''undefined'' | Some g \<Rightarrow> g)"

definition sectionCandidates :: "jstring \<Rightarrow> jstring list" where
  "sectionCandidates text =
     map citation (matchAll ipcSectionRe text) @ map citation (matchAll sectionIpcRe text)"

definition sectionsOf :: "jstring \<Rightarrow> jstring list" where
  "sectionsOf text = fromSet (sectionCandidates text)"


subsection \<open>Location\<close>

text \<open>
  \<^verbatim>\<open>let location = pick([
      /\bLocation\s*[:\-]?\s*([A-Za-z0-9 .,&'_-]+?)(?=,|\n|$)/i,
      /\bPolice\s*Station.*?\(\s*([A-Za-z0-9 .,&'_-]+?)\s*\)/i,
      /\bPolice\s*Station\s*[:\-]?\s*([A-Za-z0-9 .,&'_-]+?)(?=,|\n|$)/i,
      /\b(?:at|in)\s+(?!Survey\s*No\b|...|Police\s*Station\b)([A-Za-z0-9 .,&'_-]+?)(?=,|\n|$)/i,
    ], flat, 1, "") || "";\<close>
\<close>

definition locationRes :: "regexp list" where
  "locationRes = [
     (True, seqs [Bnd, lit ''Location'', ws, optSep, ws, Grp 1 (lplus (Cls placeClass)),
        untilCommaOrLine]),
     (True, seqs [Bnd, lit ''Police'', ws, lit ''Station'', LStar Dot, chr CHR ''('', ws,
        Grp 1 (lplus (Cls placeClass)), ws, chr CHR '')'']),
     policeStationRe,
     (True, seqs [Bnd, alts [lit ''at'', lit ''in''], ws1, notBoilerplate,
        Grp 1 (lplus (Cls placeClass)), untilCommaOrLine])]"

text \<open>
  \<^verbatim>\<open>if (!location || /\b(FIR|First|Information|Report)\b/i.test(location)) {
    const m = flat.match(
      /\b(?:at|in)\s+(?!Survey\s*No\b|...|Police\s*Station\b)([A-Za-z .,&'_-]+?(?:Puram|Nagar|Colony|Road|Street|Layout|Block|Area|District|City))(?=,|\n|$)/i);
    location = (m?.[1] || "").trim();
  }\<close>
\<close>

definition reportWordRe :: regexp where
  "reportWordRe = (True, seqs [Bnd,
     Grp 1 (alts (map lit [''FIR'', ''First'', ''Information'', ''Report''])), Bnd])"

definition localityRe :: regexp where
  "localityRe = (True, seqs [Bnd, alts [lit ''at'', lit ''in''], ws1, notBoilerplate,
     Grp 1 (seqs [lplus (Cls localityClass),
       alts (map lit [''Puram'', ''Nagar'', ''Colony'', ''Road'', ''Street'', ''Layout'', ''Block'',
         ''Area'', ''District'', ''City''])]),
     untilCommaOrLine])"

definition locationFirst :: "jstring \<Rightarrow> jstring" where
  "locationFirst flat =
     (let location = orElse (pick locationRes flat []) []
      in if location = [] \<or> reTest reportWordRe location
         then trim (orUndef (match1 localityRe flat) [])
         else location)"

text \<open>
  \<^verbatim>\<open>location = (location || "")
    .replace(/\bSurvey\s*No\b.*$/i, "")
    .replace(/\s+/g, " ")
    .replace(/\b([A-Z])\s*\.\s*([A-Z])\s*\./g, "$1.$2.")
    .trim();\<close>
\<close>

definition initialsRe :: regexp where
  "initialsRe = (False, seqs [Bnd, Grp 1 (Cls [Rg (cc CHR ''A'') (cc CHR ''Z'')]), ws,
     chr CHR ''.'', ws, Grp 2 (Cls [Rg (cc CHR ''A'') (cc CHR ''Z'')]), ws, chr CHR ''.''])"

definition initialsRepl :: "caps \<Rightarrow> jstring" where
  "initialsRepl c = orUndef (grp c 1) [] @ js ''.'' @ orUndef (grp c 2) [] @ js ''.''"

definition locationClean :: "jstring \<Rightarrow> jstring" where
  "locationClean location =
     trim (replaceAll initialsRe initialsRepl
       (replaceAll (False, ws1) (\<lambda>c. js '' '')
         (replaceFirst (True, seqs [Bnd, lit ''Survey'', ws, lit ''No'', Bnd, Star Dot, Eol])
            (\<lambda>c. []) (orElse location []))))"

text \<open>
  \<^verbatim>\<open>if (!location) {
    const rs = flat.match(/\bR\.?\s*S\.?\s*Puram\b/i)?.[0];
    const bn = flat.match(/\bBharathi\s*Nagar\b/i)?.[0];
    location = (bn || rs || policeStation || "N/A").trim();
  }\<close>
\<close>

definition rsPuramRe :: regexp where
  "rsPuramRe = (True, seqs [Bnd, lit ''R'', opt (chr CHR ''.''), ws, lit ''S'', opt (chr CHR ''.''),
     ws, lit ''Puram'', Bnd])"

definition bharathiNagarRe :: regexp where
  "bharathiNagarRe = (True, seqs [Bnd, lit ''Bharathi'', ws, lit ''Nagar'', Bnd])"

definition locationOf :: "jstring \<Rightarrow> jstring \<Rightarrow> jstring" where
  "locationOf flat policeStation =
     (let location = locationClean (locationFirst flat)
      in if location = []
         then trim (orUndef (match0 bharathiNagarRe flat)
                      (orUndef (match0 rsPuramRe flat) (orElse policeStation NA)))
         else location)"

subsection \<open>Overview, key points and timeline\<close>

text \<open>
  \<^verbatim>\<open>const overviewParts = ["FIR registered"];
  if (policeStation && policeStation !== "N/A") overviewParts.push(`at ${policeStation}`);
  if (location && location !== "N/A" && location !== policeStation) overviewParts.push(`(${location})`);
  if (firNumber && firNumber !== "N/A") overviewParts.push(`FIR No: ${firNumber}`);
  if (date && date !== "N/A") overviewParts.push(`Date: ${date}`);
  if (time && time !== "N/A") overviewParts.push(`Time: ${time}`);
  const overview = overviewParts.join(" ").replace(/\s+/g, " ").trim();\<close>
\<close>

definition overviewParts :: "jstring \<Rightarrow> jstring \<Rightarrow> jstring \<Rightarrow> jstring \<Rightarrow> jstring \<Rightarrow> jstring list" where
  "overviewParts policeStation location firNumber date time =
     [js ''FIR registered'']
     @ (if policeStation \<noteq> [] \<and> policeStation \<noteq> NA then [js ''at '' @ policeStation] else [])
     @ (if location \<noteq> [] \<and> location \<noteq> NA \<and> location \<noteq> policeStation
        then [js ''('' @ location @ js '')''] else [])
     @ (if firNumber \<noteq> [] \<and> firNumber \<noteq> NA then [js ''FIR No: '' @ firNumber] else [])
     @ (if date \<noteq> [] \<and> date \<noteq> NA then [js ''Date: '' @ date] else [])
     @ (if time \<noteq> [] \<and> time \<noteq> NA then [js ''Time: '' @ time] else [])"

definition overviewOf :: "jstring \<Rightarrow> jstring \<Rightarrow> jstring \<Rightarrow> jstring \<Rightarrow> jstring \<Rightarrow> jstring" where
  "overviewOf policeStation location firNumber date time =
     trim (replaceAll (False, ws1) (\<lambda>c. js '' '')
       (join (js '' '') (overviewParts policeStation location firNumber date time)))"

text \<open>
  \<^verbatim>\<open>const keyPoints = [
    `Complainant - ${complainant || "N/A"}`,
    `Accused - ${accused || "N/A"}`,
    `Location - ${location || "N/A"}`,
    `Sections - ${sections.length ? sections.join(", ") : "N/A"}`,
    `Investigating Officer - ${investigatingOfficer || "N/A"}`,
  ];\<close>
  The dash of the source is the en dash U+2013, the code unit 8211.
\<close>

definition dash :: jstring where
  "dash = js '' '' @ [8211] @ js '' ''"

definition keyPointsOf :: "jstring \<Rightarrow> jstring \<Rightarrow> jstring \<Rightarrow> jstring list \<Rightarrow> jstring \<Rightarrow> jstring list" where
  "keyPointsOf complainant accused location sections investigatingOfficer =
     [js ''Complainant'' @ dash @ orElse complainant NA,
      js ''Accused'' @ dash @ orElse accused NA,
      js ''Location'' @ dash @ orElse location NA,
      js ''Sections'' @ dash @ (if sections \<noteq> [] then join (js '', '') sections else NA),
      js ''Investigating Officer'' @ dash @ orElse investigatingOfficer NA]"

text \<open>The shape of the result.\<close>

record TimelineEntry =
  time :: jstring
  event :: jstring

record Entities =
  firNumber :: jstring
  policeStation :: jstring
  date :: jstring
  time :: jstring
  complainant :: jstring
  accused :: jstring
  witnesses :: "jstring list"
  sections :: "jstring list"
  location :: jstring
  investigatingOfficer :: jstring

record CaseSummary =
  overview :: jstring
  keyPoints :: "jstring list"
  entities :: Entities
  timeline :: "TimelineEntry list"

text \<open>
  \<^verbatim>\<open>const timeline = [];
  if (date !== "N/A" || time !== "N/A") {
    timeline.push({
      time: [date !== "N/A" ? date : "", time !== "N/A" ? time : ""].filter(Boolean).join(" "),
      event: "FIR registered",
    });
  }\<close>
\<close>

definition timelineOf :: "jstring \<Rightarrow> jstring \<Rightarrow> TimelineEntry list" where
  "timelineOf = (\<lambda>date time.
     if date \<noteq> NA \<or> time \<noteq> NA
      then [\<lparr>TimelineEntry.time = join (js '' '')
               (filter (\<lambda>v. v \<noteq> []) [if date \<noteq> NA then date else [], if time \<noteq> NA then time else []]),
             event = js ''FIR registered''\<rparr>]
     else [])"

subsection \<open>parseFIR\<close>

definition empty :: CaseSummary where
  "empty = \<lparr>overview = js ''FIR summary not available.'',
            keyPoints = [],
            entities = \<lparr>firNumber = NA, policeStation = NA, date = NA, time = NA,
              complainant = NA, accused = NA, witnesses = [], sections = [],
              location = NA, investigatingOfficer = NA\<rparr>,
            timeline = []\<rparr>"

text \<open>
  \<^verbatim>\<open>function parseFIR(raw = "") {
    ...
    if (!raw || !raw.trim()) return empty;
    ...
    return {
      overview, keyPoints,
      entities: {
        firNumber: firNumber || "N/A", policeStation: policeStation || "N/A",
        date: date || "N/A", time: time || "N/A",
        complainant: complainant || "N/A", accused: accused || "N/A",
        witnesses, sections,
        location: location || "N/A",
        investigatingOfficer: investigatingOfficer || "N/A",
      },
      timeline,
    };
  }\<close>
  The argument is a string: \<open>SummaryCard\<close> passes the summary text.
\<close>

definition parseFIR :: "jstring \<Rightarrow> CaseSummary" where
  "parseFIR raw =
     (if raw = [] \<or> trim raw = [] then empty
      else
        (let text = normText raw;
             flat = flatText text;
             policeStation = policeStationOf flat;
             firNumber = firNumberOf flat;
             date = dateOf flat;
             time = timeOf flat;
             complainant = complainantOf text flat;
             accused = accusedOf text flat;
             witnesses = witnessesOf text flat;
             investigatingOfficer = investigatingOfficerOf text flat;
             sections = sectionsOf text;
             location = locationOf flat policeStation
         in \<lparr>overview = overviewOf policeStation location firNumber date time,
             keyPoints = keyPointsOf complainant accused location sections investigatingOfficer,
             entities = \<lparr>firNumber = orElse firNumber NA,
               policeStation = orElse policeStation NA,
               date = orElse date NA,
               time = orElse time NA,
               complainant = orElse complainant NA,
               accused = orElse accused NA,
               witnesses = witnesses,
               sections = sections,
               location = orElse location NA,
               investigatingOfficer = orElse investigatingOfficer NA\<rparr>,
             timeline = timelineOf date time\<rparr>))"

section \<open>Notions used to state and prove the properties\<close>


text \<open>
  A pattern without capture group; a pattern whose every match begins with a digit; a
  pattern whose capture groups all have a digit-led body and lie outside quantifiers and
  lookaheads.
\<close>

fun gfree :: "regex \<Rightarrow> bool" where
  "gfree (Grp i r) = False"
| "gfree (Seq a b) = (gfree a \<and> gfree b)"
| "gfree (Alt a b) = (gfree a \<and> gfree b)"
| "gfree (Star r) = gfree r"
| "gfree (LStar r) = gfree r"
| "gfree (Look r) = gfree r"
| "gfree (NLook r) = gfree r"
| "gfree _ = True"

fun digitLed :: "regex \<Rightarrow> bool" where
  "digitLed (Cls is) = (is = [Rg 48 57])"
| "digitLed (Seq a b) = digitLed a"
| "digitLed (Alt a b) = (digitLed a \<and> digitLed b)"
| "digitLed _ = False"

fun okGroups :: "regex \<Rightarrow> bool" where
  "okGroups (Grp i r) = (gfree r \<and> digitLed r)"
| "okGroups (Seq a b) = (okGroups a \<and> okGroups b)"
| "okGroups (Alt a b) = (okGroups a \<and> okGroups b)"
| "okGroups (Star r) = gfree r"
| "okGroups (LStar r) = gfree r"
| "okGroups (Look r) = gfree r"
| "okGroups (NLook r) = gfree r"
| "okGroups _ = True"

text \<open>
  Invariants of the frame stack for such patterns: in a \<open>settled\<close> stack every open
  group began at a digit that is already consumed; a \<open>fresh\<close> stack has just opened a
  group whose body is on top and will consume a digit first.
\<close>

fun settled :: "jstring \<Rightarrow> frame list \<Rightarrow> bool" where
  "settled s [] = True"
| "settled s (Run r # k) = (okGroups r \<and> settled s k)"
| "settled s (Progress n # k) = settled s k"
| "settled s (Close i s0 # k) =
     (s0 \<noteq> [] \<and> isDigit (hd s0) \<and> length s < length s0 \<and> settled s k)"

fun opened :: "jstring \<Rightarrow> frame list \<Rightarrow> bool" where
  "opened s [] = False"
| "opened s (Run r # k) = (gfree r \<and> opened s k)"
| "opened s (Progress n # k) = False"
| "opened s (Close i s0 # k) = (s0 = s \<and> settled s k)"

fun fresh :: "jstring \<Rightarrow> frame list \<Rightarrow> bool" where
  "fresh s (Run r # k) = (gfree r \<and> digitLed r \<and> opened s k)"
| "fresh s _ = False"

definition digitCaps :: "caps \<Rightarrow> bool" where
  "digitCaps c = list_all (\<lambda>(i, g). g \<noteq> [] \<and> isDigit (hd g)) c"

text \<open>
  The strings a pattern describes: what a match of the pattern can consume. Assertions
  (\<open>\b\<close>, \<open>^\<close>, \<open>$\<close>, lookaheads) consume nothing, so they count as the empty string here;
  \<open>langs\<close> is the same for a stack of frames.
\<close>

definition conc :: "jstring set \<Rightarrow> jstring set \<Rightarrow> jstring set" where
  "conc A B = {a @ b | a b. a \<in> A \<and> b \<in> B}"

inductive_set starL :: "jstring set \<Rightarrow> jstring set" for A :: "jstring set" where
  nil: "[] \<in> starL A"
| step: "a \<in> A \<Longrightarrow> w \<in> starL A \<Longrightarrow> a @ w \<in> starL A"

fun lang :: "bool \<Rightarrow> regex \<Rightarrow> jstring set" where
  "lang ic Eps = {[]}"
| "lang ic (Cls is) = {[x] | x. inClass ic x is}"
| "lang ic (NCls is) = {[x] | x. \<not> inClass ic x is}"
| "lang ic Dot = {[x] | x. \<not> isLineTerminator x}"
| "lang ic (Seq a b) = conc (lang ic a) (lang ic b)"
| "lang ic (Alt a b) = lang ic a \<union> lang ic b"
| "lang ic (Star r) = starL (lang ic r)"
| "lang ic (LStar r) = starL (lang ic r)"
| "lang ic (Grp i r) = lang ic r"
| "lang ic (Look r) = {[]}"
| "lang ic (NLook r) = {[]}"
| "lang ic Bnd = {[]}"
| "lang ic Bol = {[]}"
| "lang ic Eol = {[]}"

fun langs :: "bool \<Rightarrow> frame list \<Rightarrow> jstring set" where
  "langs ic [] = {[]}"
| "langs ic (Run r # k) = conc (lang ic r) (langs ic k)"
| "langs ic (Progress n # k) = langs ic k"
| "langs ic (Close i s0 # k) = langs ic k"

text \<open>The code units that can occur in a string the pattern describes.\<close>

fun alphabet :: "bool \<Rightarrow> regex \<Rightarrow> cu set" where
  "alphabet ic (Cls is) = {x. inClass ic x is}"
| "alphabet ic (NCls is) = {x. \<not> inClass ic x is}"
| "alphabet ic Dot = {x. \<not> isLineTerminator x}"
| "alphabet ic (Seq a b) = alphabet ic a \<union> alphabet ic b"
| "alphabet ic (Alt a b) = alphabet ic a \<union> alphabet ic b"
| "alphabet ic (Star r) = alphabet ic r"
| "alphabet ic (LStar r) = alphabet ic r"
| "alphabet ic (Grp i r) = alphabet ic r"
| "alphabet ic _ = {}"

text \<open>Some part of \<open>s\<close> is a string of \<open>L\<close>.\<close>

definition occursIn :: "jstring set \<Rightarrow> jstring \<Rightarrow> bool" where
  "occursIn L s = (\<exists>a u b. s = a @ u @ b \<and> u \<in> L)"

text \<open>\<open>x\<close> occurs in \<open>s\<close> directly before \<open>y\<close>.\<close>

fun adjacent :: "cu \<Rightarrow> cu \<Rightarrow> jstring \<Rightarrow> bool" where
  "adjacent x y (a # b # s) = ((a = x \<and> b = y) \<or> adjacent x y (b # s))"
| "adjacent x y _ = False"

text \<open>
  What the replacement of \<open>/\r\n?/g\<close> by a line feed computes: each carriage return,
  together with a line feed directly after it, becomes one line feed.
\<close>

fun crlf :: "jstring \<Rightarrow> jstring" where
  "crlf [] = []"
| "crlf [x] = (if x = 13 then [10] else [x])"
| "crlf (x # y # s) =
     (if x = 13 then (if y = 10 then 10 # crlf s else 10 # crlf (y # s)) else x # crlf (y # s))"

section \<open>Properties\<close>

lemma trim_all_space:
  assumes "list_all isSpace s"
  shows "trim s = []"
proof -
  have dw: "dropWhile isSpace s = []" using assms by (simp add: list_all_iff)
  show ?thesis unfolding trim_def dw by simp
qed

lemma trim_nonspace_head: "\<not> isSpace x \<Longrightarrow> trim (x # xs) \<noteq> []"
  by (simp add: trim_def dropWhile_append)

lemma trim_empty_iff: "trim s = [] \<longleftrightarrow> list_all isSpace s"
proof
  assume t: "trim s = []"
  show "list_all isSpace s"
  proof (cases "dropWhile isSpace s")
    case Nil
    then show ?thesis by (simp add: list_all_iff)
  next
    case (Cons x xs)
    then have "\<not> isSpace x" using hd_dropWhile[of isSpace s] by simp
    moreover have "\<forall>y \<in> set (dropWhile isSpace s). isSpace y"
      using t by (simp add: trim_def)
    ultimately show ?thesis using Cons by simp
  qed
qed (rule trim_all_space)

lemma not_blank: "\<not> list_all isSpace raw \<Longrightarrow> \<not> (raw = [] \<or> trim raw = [])"
  by (auto simp: trim_empty_iff)

lemma orElse_nonempty: "b \<noteq> [] \<Longrightarrow> orElse a b \<noteq> []"
  by (simp add: orElse_def)

lemma NA_nonempty: "NA \<noteq> []"
  by (simp add: NA_def js_def)

lemma orElse_NA_cases: "orElse a NA = NA \<Longrightarrow> a = [] \<or> a = NA"
  by (simp add: orElse_def split: if_splits)





lemma gfree_okGroups: "gfree r \<Longrightarrow> okGroups r"
  by (induction r) auto

lemma settled_mono: "settled s k \<Longrightarrow> length s' \<le> length s \<Longrightarrow> settled s' k"
  by (induction s k rule: settled.induct) auto

lemma settled_tl: "settled (x # xs) k \<Longrightarrow> settled xs k"
  using settled_mono[of "x # xs" k xs] by simp

lemma opened_settled: "opened (x # xs) k \<Longrightarrow> isDigit x \<Longrightarrow> settled xs k"
  by (induction "x # xs" k rule: opened.induct) (auto simp: gfree_okGroups intro: settled_mono)

lemma digit_class: "inClass ic x [Rg 48 57] \<Longrightarrow> isDigit x"
  by (auto simp: isDigit_def swapCase_def split: if_splits)

lemma exec_digitCaps:
  "exec ic k p s c = Some (p', s', c') \<Longrightarrow> settled s k \<or> fresh s k \<Longrightarrow> digitCaps c \<Longrightarrow> digitCaps c'"
proof (induction ic k p s c rule: exec.induct)
  case (1 ic p s c)
  then show ?case by simp
next
  case (4 ic "is" k p x xs c)
  then show ?case
    by (auto split: if_splits dest: digit_class opened_settled settled_tl)
next
  case (6 ic "is" k p x xs c)
  then show ?case by (auto split: if_splits dest: settled_tl)
next
  case (8 ic k p x xs c)
  then show ?case by (auto split: if_splits dest: settled_tl)
next
  case (10 ic a b k p s c)
  then show ?case by (auto split: option.splits)
next
  case (11 ic r k p s c)
  then show ?case by (auto split: option.splits simp: gfree_okGroups)
next
  case (12 ic r k p s c)
  then show ?case by (auto split: option.splits simp: gfree_okGroups)
next
  case (14 ic r k p s c)
  then show ?case by (auto split: option.splits)
next
  case (15 ic r k p s c)
  then show ?case by (auto split: option.splits)
next
  case (20 ic i s0 k p s c)
  then show ?case
    by (cases s0) (auto simp: digitCaps_def)
qed (auto split: if_splits)


lemma search_digitCaps:
  "search ic re p s = Some (s0, (p', s', c')) \<Longrightarrow> okGroups re \<Longrightarrow> digitCaps c'"
proof (induction s arbitrary: p)
  case Nil
  then show ?case
    by (auto split: option.splits dest!: exec_digitCaps simp: digitCaps_def)
next
  case (Cons x xs)
  show ?case
  proof (cases "exec ic [Run re] p (x # xs) []")
    case None
    then show ?thesis using Cons by simp
  next
    case (Some r)
    then have "exec ic [Run re] p (x # xs) [] = Some (p', s', c')" using Cons.prems(1) by simp
    then show ?thesis using exec_digitCaps[of ic "[Run re]" p "x # xs" "[]" p' s' c'] Cons.prems(2)
      by (simp add: digitCaps_def)
  qed
qed

lemma match1_digit:
  assumes "match1 re s = Some g" and "okGroups (snd re)"
  shows "g \<noteq> [] \<and> isDigit (hd g)"
proof -
  from assms(1) obtain s0 p' s' c' where
    sr: "search (fst re) (snd re) None s = Some (s0, (p', s', c'))" and g: "map_of c' 1 = Some g"
    by (auto simp: match1_def reMatch_def grp_def split: option.splits)
  have "digitCaps c'" using search_digitCaps[OF sr assms(2)] .
  moreover have "(1, g) \<in> set c'" using g by (rule map_of_SomeD)
  ultimately show ?thesis by (auto simp: digitCaps_def list_all_iff)
qed

lemma digit_not_space: "isDigit x \<Longrightarrow> \<not> isSpace x"
  by (auto simp: isDigit_def isSpace_def)

lemma trim_digit_led: "g \<noteq> [] \<Longrightarrow> isDigit (hd g) \<Longrightarrow> trim g \<noteq> []"
  by (cases g) (auto dest: digit_not_space simp: trim_nonspace_head)

lemma pick_digit_nonempty:
  "list_all (\<lambda>re. okGroups (snd re)) res \<Longrightarrow> fb \<noteq> [] \<Longrightarrow> pick res text fb \<noteq> []"
proof (induction res)
  case Nil
  then show ?case by simp
next
  case (Cons re res)
  show ?case
  proof (cases "match1 re text")
    case None
    then show ?thesis using Cons by simp
  next
    case (Some g)
    then have "g \<noteq> [] \<and> isDigit (hd g)" using match1_digit Cons.prems(1) by simp
    then show ?thesis using Some by (simp add: trim_digit_led)
  qed
qed

lemma okGroups_dateRe: "okGroups (snd dateRe)"
  by code_simp

lemma okGroups_timeRes: "list_all (\<lambda>re. okGroups (snd re)) timeRes"
  by code_simp

lemma dateOf_nonempty: "dateOf flat \<noteq> []"
  unfolding dateOf_def by (rule pick_digit_nonempty) (simp_all add: okGroups_dateRe NA_nonempty)

lemma timeOf_nonempty: "timeOf flat \<noteq> []"
  unfolding timeOf_def by (rule pick_digit_nonempty) (simp_all add: okGroups_timeRes NA_nonempty)

lemma orElse_id: "a \<noteq> [] \<Longrightarrow> orElse a b = a"
  by (simp add: orElse_def)

lemma join_two: "a \<noteq> [] \<Longrightarrow> b \<noteq> [] \<Longrightarrow> join sep (filter (\<lambda>v. v \<noteq> []) [a, b]) = a @ sep @ b"
  by simp

text \<open>
  Claim C5. The timeline is determined by the returned date and time fields: it is empty
  when both are \<open>"N/A"\<close>; otherwise it has the single entry whose event is
  \<open>"FIR registered"\<close> and whose time is the date, the time, or both joined by a space.
\<close>

theorem timeline_from_date_time:
  "let r = parseFIR raw; d = date (entities r); t = Entities.time (entities r) in
     (d = NA \<and> t = NA \<longrightarrow> timeline r = []) \<and>
     (d \<noteq> NA \<and> t = NA \<longrightarrow> timeline r = [\<lparr>TimelineEntry.time = d, event = js ''FIR registered''\<rparr>]) \<and>
     (d = NA \<and> t \<noteq> NA \<longrightarrow> timeline r = [\<lparr>TimelineEntry.time = t, event = js ''FIR registered''\<rparr>]) \<and>
     (d \<noteq> NA \<and> t \<noteq> NA \<longrightarrow>
        timeline r = [\<lparr>TimelineEntry.time = d @ js '' '' @ t, event = js ''FIR registered''\<rparr>])"
proof (cases "raw = [] \<or> trim raw = []")
  case True
  then show ?thesis by (simp add: parseFIR_def empty_def Let_def)
next
  case False
  define flat where "flat = flatText (normText raw)"
  have d: "date (entities (parseFIR raw)) = dateOf flat"
    using False dateOf_nonempty[of flat] by (simp add: parseFIR_def Let_def flat_def orElse_id)
  have t: "Entities.time (entities (parseFIR raw)) = timeOf flat"
    using False timeOf_nonempty[of flat] by (simp add: parseFIR_def Let_def flat_def orElse_id)
  have tl: "timeline (parseFIR raw) = timelineOf (dateOf flat) (timeOf flat)"
    using False by (simp add: parseFIR_def Let_def flat_def)
  show ?thesis
    unfolding Let_def d t tl
    using dateOf_nonempty[of flat] timeOf_nonempty[of flat]
    by (simp add: timelineOf_def)
qed


theorem timeline_from_date_time_witness:
  "date (entities (parseFIR (js ''Date: 15/09/2024, Time: 18:30 hrs''))) \<noteq> NA \<and>
   Entities.time (entities (parseFIR (js ''Date: 15/09/2024, Time: 18:30 hrs''))) \<noteq> NA \<and>
   timeline (parseFIR (js ''Date: 15/09/2024, Time: 18:30 hrs'')) =
     [\<lparr>TimelineEntry.time = js ''15/09/2024 18:30'', event = js ''FIR registered''\<rparr>]"
proof -
  have d: "date (entities (parseFIR (js ''Date: 15/09/2024, Time: 18:30 hrs''))) = js ''15/09/2024''"
    by code_simp
  have t: "Entities.time (entities (parseFIR (js ''Date: 15/09/2024, Time: 18:30 hrs''))) = js ''18:30''"
    by code_simp
  have n: "js ''15/09/2024'' \<noteq> NA" "js ''18:30'' \<noteq> NA"
    by (simp_all add: NA_def js_def)
  show ?thesis
    using timeline_from_date_time[of "js ''Date: 15/09/2024, Time: 18:30 hrs''"] n
    unfolding Let_def d t by (simp add: js_def)
qed

text \<open>
  Claim C1. \<open>parseFIR\<close> is a total function (the matcher terminates on every input, and
  no operation of the parser can throw on a string), and in its result every scalar entity
  field is a non-empty string: the sentinel \<open>"N/A"\<close> or the value extracted for that field.
  The four sequence-valued components are lists by their type.
\<close>

theorem parseFIR_fully_populated:
  "let e = entities (parseFIR raw); flat = flatText (normText raw); text = normText raw in
     firNumber e \<noteq> [] \<and> (firNumber e = NA \<or> firNumber e = firNumberOf flat) \<and>
     policeStation e \<noteq> [] \<and> (policeStation e = NA \<or> policeStation e = policeStationOf flat) \<and>
     date e \<noteq> [] \<and> (date e = NA \<or> date e = dateOf flat) \<and>
     Entities.time e \<noteq> [] \<and> (Entities.time e = NA \<or> Entities.time e = timeOf flat) \<and>
     complainant e \<noteq> [] \<and> (complainant e = NA \<or> complainant e = complainantOf text flat) \<and>
     accused e \<noteq> [] \<and> (accused e = NA \<or> accused e = accusedOf text flat) \<and>
     location e \<noteq> [] \<and> (location e = NA \<or> location e = locationOf flat (policeStationOf flat)) \<and>
     investigatingOfficer e \<noteq> [] \<and>
       (investigatingOfficer e = NA \<or> investigatingOfficer e = investigatingOfficerOf text flat)"
  by (simp add: parseFIR_def empty_def Let_def orElse_def NA_nonempty)

theorem parseFIR_fully_populated_witness:
  "firNumber (entities (parseFIR (js ''FIR No: 12/2024''))) \<noteq> [] \<and>
   investigatingOfficer (entities (parseFIR (js ''FIR No: 12/2024''))) \<noteq> []"
  using parseFIR_fully_populated[of "js ''FIR No: 12/2024''"] by (simp add: Let_def)

text \<open>
  Claim C2. For the empty string and for every string of white space only, the result is
  the canonical empty summary.
\<close>

theorem parseFIR_blank:
  "list_all isSpace raw \<Longrightarrow>
   parseFIR raw =
     \<lparr>overview = js ''FIR summary not available.'', keyPoints = [],
      entities = \<lparr>firNumber = js ''N/A'', policeStation = js ''N/A'', date = js ''N/A'',
        time = js ''N/A'', complainant = js ''N/A'', accused = js ''N/A'', witnesses = [],
        sections = [], location = js ''N/A'', investigatingOfficer = js ''N/A''\<rparr>,
      timeline = []\<rparr>"
  by (simp add: parseFIR_def trim_all_space empty_def NA_def)

theorem parseFIR_blank_witness:
  "list_all isSpace [32, 9, 13, 10, 160] \<and>
   overview (parseFIR [32, 9, 13, 10, 160]) = js ''FIR summary not available.'' \<and>
   keyPoints (parseFIR [32, 9, 13, 10, 160]) = [] \<and>
   timeline (parseFIR [32, 9, 13, 10, 160]) = []"
proof -
  have h: "list_all isSpace [32, 9, 13, 10, 160]" by (simp add: isSpace_def)
  show ?thesis using parseFIR_blank[OF h] h by simp
qed

lemma overview_base:
  "trim (replaceAll (False, ws1) (\<lambda>c. js '' '') (js ''FIR registered'')) = js ''FIR registered''"
  by code_simp

lemma overviewParts_none:
  "ps = [] \<or> ps = NA \<Longrightarrow> loc = [] \<or> loc = NA \<Longrightarrow> fir = [] \<or> fir = NA \<Longrightarrow>
   d = [] \<or> d = NA \<Longrightarrow> t = [] \<or> t = NA \<Longrightarrow>
   overviewParts ps loc fir d t = [js ''FIR registered'']"
  by (auto simp: overviewParts_def)

text \<open>
  Claim C10. For an input that is not blank and from which nothing is extracted (every
  scalar field of the result is \<open>"N/A"\<close>, both lists are empty), the overview is exactly
  \<open>"FIR registered"\<close> and the key points are the five fixed entries ending in \<open>"N/A"\<close>.
\<close>

theorem parseFIR_nothing_extracted:
  assumes "\<not> list_all isSpace raw"
    and "firNumber (entities (parseFIR raw)) = js ''N/A''"
    and "policeStation (entities (parseFIR raw)) = js ''N/A''"
    and "date (entities (parseFIR raw)) = js ''N/A''"
    and "Entities.time (entities (parseFIR raw)) = js ''N/A''"
    and "complainant (entities (parseFIR raw)) = js ''N/A''"
    and "accused (entities (parseFIR raw)) = js ''N/A''"
    and "location (entities (parseFIR raw)) = js ''N/A''"
    and "investigatingOfficer (entities (parseFIR raw)) = js ''N/A''"
    and "witnesses (entities (parseFIR raw)) = []"
    and "sections (entities (parseFIR raw)) = []"
  shows "overview (parseFIR raw) = js ''FIR registered'' \<and>
         keyPoints (parseFIR raw) =
           [js ''Complainant '' @ [8211] @ js '' N/A'',
            js ''Accused '' @ [8211] @ js '' N/A'',
            js ''Location '' @ [8211] @ js '' N/A'',
            js ''Sections '' @ [8211] @ js '' N/A'',
            js ''Investigating Officer '' @ [8211] @ js '' N/A'']"
proof -
  define nt where "nt = normText raw"
  define flat where "flat = flatText nt"
  define ps where "ps = policeStationOf flat"
  define loc where "loc = locationOf flat ps"
  note defs = nt_def flat_def ps_def loc_def
  have nb: "\<not> (raw = [] \<or> trim raw = [])" using assms(1) by (rule not_blank)
  have f: "orElse (firNumberOf flat) NA = NA" using assms(2) nb by (simp add: parseFIR_def Let_def defs NA_def)
  have p: "orElse ps NA = NA" using assms(3) nb by (simp add: parseFIR_def Let_def defs NA_def)
  have d: "orElse (dateOf flat) NA = NA" using assms(4) nb by (simp add: parseFIR_def Let_def defs NA_def)
  have t: "orElse (timeOf flat) NA = NA" using assms(5) nb by (simp add: parseFIR_def Let_def defs NA_def)
  have c: "orElse (complainantOf nt flat) NA = NA" using assms(6) nb by (simp add: parseFIR_def Let_def defs NA_def)
  have a: "orElse (accusedOf nt flat) NA = NA" using assms(7) nb by (simp add: parseFIR_def Let_def defs NA_def)
  have l: "orElse loc NA = NA" using assms(8) nb by (simp add: parseFIR_def Let_def defs NA_def)
  have i: "orElse (investigatingOfficerOf nt flat) NA = NA" using assms(9) nb by (simp add: parseFIR_def Let_def defs NA_def)
  have s: "sectionsOf nt = []" using assms(11) nb by (simp add: parseFIR_def Let_def defs)
  have parts: "overviewParts ps loc (firNumberOf flat) (dateOf flat) (timeOf flat) = [js ''FIR registered'']"
    by (rule overviewParts_none) (rule orElse_NA_cases, fact)+
  have ov: "overview (parseFIR raw) = js ''FIR registered''"
    using nb by (simp add: parseFIR_def Let_def defs[symmetric] overviewOf_def parts overview_base)
  have kp: "keyPoints (parseFIR raw) =
      keyPointsOf (complainantOf nt flat) (accusedOf nt flat) loc (sectionsOf nt) (investigatingOfficerOf nt flat)"
    using nb by (simp add: parseFIR_def Let_def defs[symmetric])
  show ?thesis
    unfolding kp ov keyPointsOf_def c a l i s
    by (simp add: dash_def NA_def js_def)
qed

theorem parseFIR_nothing_extracted_witness:
  "overview (parseFIR (js ''hello'')) = js ''FIR registered'' \<and>
   length (keyPoints (parseFIR (js ''hello''))) = 5"
proof -
  have e: "parseFIR (js ''hello'') =
     \<lparr>overview = js ''FIR registered'',
      keyPoints = keyPointsOf NA NA NA [] NA,
      entities = \<lparr>firNumber = js ''N/A'', policeStation = js ''N/A'', date = js ''N/A'',
        time = js ''N/A'', complainant = js ''N/A'', accused = js ''N/A'', witnesses = [],
        sections = [], location = js ''N/A'', investigatingOfficer = js ''N/A''\<rparr>,
      timeline = []\<rparr>"
    by code_simp
  have n: "\<not> list_all isSpace (js ''hello'')"
    by (simp add: js_def isSpace_def)
  show ?thesis
    using parseFIR_nothing_extracted[of "js ''hello''", OF n] unfolding e
    by simp
qed




text \<open>
  Claim C6 at a failing input. The officer's name is returned with its rank and its double
  space; \<open>cleanPerson\<close>, which the witness path applies, would have removed both.
\<close>

theorem officer_rank_kept:
  "investigatingOfficer (entities (parseFIR
      (js ''7. Investigating Officer\<newline>Name: SI Ramesh  Kumar\<newline>8. Remarks''))) =
     js ''SI Ramesh  Kumar'' \<and>
   cleanPerson (js ''SI Ramesh  Kumar'') = js ''Ramesh Kumar''"
  by code_simp

text \<open>
  Claim C7 at a failing input, the block of the claim itself. The block starts at its
  heading, and the heading line matches the line pattern, so \<open>Witnesses\<close> is returned as
  the first witness.
\<close>

theorem witness_heading_captured:
  "witnesses (entities (parseFIR
      (js ''5. Witnesses\<newline>1. SI Amit Singh, Designation: Security\<newline>2. Priya Rao\<newline>6. Sections''))) =
     [js ''Witnesses'', js ''Amit Singh'', js ''Priya Rao'']"
  by code_simp

subsection \<open>What a match consumes is a string of the pattern\<close>

lemma concI: "a \<in> A \<Longrightarrow> b \<in> B \<Longrightarrow> a @ b \<in> conc A B"
  by (auto simp: conc_def)

lemma concE: "u \<in> conc A B \<Longrightarrow> (\<And>a b. u = a @ b \<Longrightarrow> a \<in> A \<Longrightarrow> b \<in> B \<Longrightarrow> P) \<Longrightarrow> P"
  by (auto simp: conc_def)

lemma conc_star: "u \<in> conc A (conc (starL A) B) \<Longrightarrow> u \<in> conc (starL A) B"
proof -
  assume "u \<in> conc A (conc (starL A) B)"
  then obtain a w b where "u = a @ w @ b" "a \<in> A" "w \<in> starL A" "b \<in> B"
    by (auto simp: conc_def)
  then show ?thesis
    using concI[of "a @ w" "starL A" b B] starL.step[of a A w] by simp
qed

lemma conc_star_skip: "u \<in> B \<Longrightarrow> u \<in> conc (starL A) B"
  using concI[of "[]" "starL A" u B] starL.nil by simp

lemma conc_assoc: "conc (conc A B) C = conc A (conc B C)"
  by (auto simp: conc_def) (metis append.assoc)+

lemma conc_unit: "conc {[]} A = A"
  by (auto simp: conc_def)

lemma exec_sound:
  "exec ic k p s c = Some (p', s', c') \<Longrightarrow> \<exists>u. s = u @ s' \<and> u \<in> langs ic k"
proof (induction ic k p s c rule: exec.induct)
  case (1 ic p s c)
  then show ?case by simp
next
  case (4 ic "is" k p x xs c)
  then obtain u where "xs = u @ s'" "u \<in> langs ic k" by (auto split: if_splits)
  moreover have "inClass ic x is" using 4 by (auto split: if_splits)
  ultimately show ?case
    using concI[of "[x]" "lang ic (Cls is)" u "langs ic k"] by auto
next
  case (6 ic "is" k p x xs c)
  then obtain u where "xs = u @ s'" "u \<in> langs ic k" by (auto split: if_splits)
  moreover have "\<not> inClass ic x is" using 6 by (auto split: if_splits)
  ultimately show ?case
    using concI[of "[x]" "lang ic (NCls is)" u "langs ic k"] by auto
next
  case (8 ic k p x xs c)
  then obtain u where "xs = u @ s'" "u \<in> langs ic k" by (auto split: if_splits)
  moreover have "\<not> isLineTerminator x" using 8 by (auto split: if_splits)
  ultimately show ?case
    using concI[of "[x]" "lang ic Dot" u "langs ic k"] by auto
next
  case (9 ic a b k p s c)
  then show ?case by (simp add: conc_assoc)
next
  case (10 ic a b k p s c)
  then show ?case by (auto split: option.splits simp: conc_def)
next
  case (11 ic r k p s c)
  then show ?case
    by (auto split: option.splits intro: conc_star conc_star_skip)
next
  case (12 ic r k p s c)
  then show ?case
    by (auto split: option.splits intro: conc_star conc_star_skip)
next
  case (14 ic r k p s c)
  then show ?case by (auto split: option.splits simp: conc_unit)
next
  case (15 ic r k p s c)
  then show ?case by (auto split: option.splits simp: conc_unit)
qed (auto split: if_splits simp: conc_unit)

lemma exec_sound1:
  "exec ic [Run re] p s c = Some (p', s', c') \<Longrightarrow> \<exists>u. s = u @ s' \<and> u \<in> lang ic re"
  using exec_sound[of ic "[Run re]" p s c p' s' c'] by (auto simp: conc_def)

lemma starL_alphabet: "w \<in> starL A \<Longrightarrow> (\<And>a. a \<in> A \<Longrightarrow> set a \<subseteq> X) \<Longrightarrow> set w \<subseteq> X"
  by (induction rule: starL.induct) auto

lemma lang_alphabet: "u \<in> lang ic r \<Longrightarrow> set u \<subseteq> alphabet ic r"
proof (induction r arbitrary: u)
  case (Star r)
  then show ?case using starL_alphabet[of u "lang ic r" "alphabet ic r"] by auto
next
  case (LStar r)
  then show ?case using starL_alphabet[of u "lang ic r" "alphabet ic r"] by auto
next
  case (Seq r1 r2)
  from Seq.prems obtain a b where "u = a @ b" "a \<in> lang ic r1" "b \<in> lang ic r2"
    by (auto simp: conc_def)
  then show ?case using Seq.IH(1)[of a] Seq.IH(2)[of b] by auto
qed auto

subsection \<open>Line-ending normalisation\<close>

lemma normText_crlf_aux:
  "replaceScan False (Seq (Cls [Ch 13]) (opt (Cls [Ch 10]))) (\<lambda>c. [10]) p s 0 = crlf s"
  by (induction s arbitrary: p rule: crlf.induct) (auto simp: opt_def)

lemma normText_crlf: "normText s = crlf s"
  by (simp add: normText_def replaceAll_def normText_crlf_aux)

lemma crlf_append: "ys = [] \<or> hd ys \<noteq> 10 \<Longrightarrow> crlf (xs @ ys) = crlf xs @ crlf ys"
proof (induction xs rule: crlf.induct)
  case 1
  then show ?case by simp
next
  case (2 x)
  then show ?case by (cases ys) auto
next
  case (3 x y s)
  then show ?case by auto
qed




subsection \<open>Finding the block of a heading\<close>

lemmas re_defs = seqs_def lit_def chr_def cc_def ws_def ws1_def opt_def plus1_def lplus_def
  letters_def quote_def complainantClass_def accusedClass_def untilFieldLabel_def

lemmas ch_defs = isSpace_def swapCase_def isWordChar_def isDigit_def wordBefore_def wordAfter_def

lemma search_length: "search ic re p s = Some (s0, st) \<Longrightarrow> length s0 \<le> length s"
  by (induction s arbitrary: p) (auto split: option.splits, fastforce)

lemma search_skip:
  assumes "\<And>q a p'. P = a @ p' \<Longrightarrow> p' \<noteq> [] \<Longrightarrow> exec ic [Run re] q (p' @ S) [] = None"
  shows "search ic re p (P @ S) = search ic re (if P = [] then p else Some (last P)) S"
  using assms
proof (induction P arbitrary: p)
  case Nil
  then show ?case by simp
next
  case (Cons x xs)
  have none: "exec ic [Run re] p ((x # xs) @ S) [] = None"
    using Cons.prems[of "[]" "x # xs" p] by simp
  have step: "search ic re (Some x) (xs @ S) = search ic re (if xs = [] then Some x else Some (last xs)) S"
  proof (rule Cons.IH)
    fix q a p'
    assume "xs = a @ p'" "p' \<noteq> []"
    then show "exec ic [Run re] q (p' @ S) [] = None"
      using Cons.prems[of "x # a" p' q] by simp
  qed
  show ?case using none step by simp
qed

lemma complainantHeading_shape:
  assumes "u \<in> lang True (snd complainantHeadingRe)"
  shows "\<exists>v. u = 49 # 46 # v \<and> 49 \<notin> set v"
proof -
  define rest where "rest = seqs [ws, lit ''Complainant'', ws, lit ''Details'']"
  have "snd complainantHeadingRe = Seq (lit ''1.'') rest"
    by (simp add: complainantHeadingRe_def seqs_def rest_def)
  then obtain a v where u: "u = a @ v" and a: "a \<in> lang True (lit ''1.'')" and v: "v \<in> lang True rest"
    using assms by (auto simp: conc_def)
  have "a = [49, 46]" using a by (auto simp: lit_def chr_def cc_def conc_def swapCase_def split: if_splits)
  moreover have "49 \<notin> alphabet True rest"
    by (simp add: rest_def re_defs ch_defs)
  ultimately show ?thesis using u lang_alphabet[OF v] by auto
qed

lemma accusedHeading_shape:
  assumes "u \<in> lang True (snd accusedHeadingRe)"
  shows "\<exists>v. u = 50 # 46 # v \<and> 49 \<notin> set v"
proof -
  define rest where "rest = seqs [ws, lit ''Accused'', ws, lit ''Details'']"
  have "snd accusedHeadingRe = Seq (lit ''2.'') rest"
    by (simp add: accusedHeadingRe_def seqs_def rest_def)
  then obtain a v where u: "u = a @ v" and a: "a \<in> lang True (lit ''2.'')" and v: "v \<in> lang True rest"
    using assms by (auto simp: conc_def)
  have "a = [50, 46]" using a by (auto simp: lit_def chr_def cc_def conc_def swapCase_def split: if_splits)
  moreover have "49 \<notin> alphabet True rest"
    by (simp add: rest_def re_defs ch_defs)
  ultimately show ?thesis using u lang_alphabet[OF v] by auto
qed

lemma no_match_before:
  assumes occ: "\<not> occursIn (lang ic re) P"
    and shape: "\<And>u. u \<in> lang ic re \<Longrightarrow> u \<noteq> [] \<and> x \<notin> set (tl u)"
    and P: "P = a @ p'" and ne: "p' \<noteq> []"
  shows "exec ic [Run re] q (p' @ x # S) [] = None"
proof (rule ccontr)
  assume "exec ic [Run re] q (p' @ x # S) [] \<noteq> None"
  then obtain q' s' c' where "exec ic [Run re] q (p' @ x # S) [] = Some (q', s', c')" by auto
  then obtain u where eq: "p' @ x # S = u @ s'" and u: "u \<in> lang ic re"
    using exec_sound1 by blast
  show False
  proof (cases "length u \<le> length p'")
    case True
    then obtain w where "p' = u @ w"
      using eq by (metis append_eq_append_conv_if append_take_drop_id)
    then have "occursIn (lang ic re) P" using P u by (auto simp: occursIn_def)
    then show False using occ by simp
  next
    case False
    then obtain v where v: "u = p' @ v" "v \<noteq> []" "x # S = v @ s'"
      using eq by (auto simp: append_eq_append_conv2)
    then have "hd v = x" by (cases v) auto
    then have "x \<in> set (tl u)" using v ne by (cases p'; cases v) auto
    then show False using shape[OF u] by simp
  qed
qed

lemma complainantHeading_first:
  assumes "\<not> occursIn (lang True (snd complainantHeadingRe)) P"
  shows "search True (snd complainantHeadingRe) p (P @ 49 # S) =
         search True (snd complainantHeadingRe) (if P = [] then p else Some (last P)) (49 # S)"
proof (rule search_skip)
  fix q a p'
  assume "P = a @ p'" "p' \<noteq> []"
  then show "exec True [Run (snd complainantHeadingRe)] q (p' @ 49 # S) [] = None"
    using no_match_before[OF assms, of 49 a p' q S] complainantHeading_shape by fastforce
qed

lemma accusedHeading_first:
  assumes "\<not> occursIn (lang True (snd accusedHeadingRe)) P"
  shows "search True (snd accusedHeadingRe) p (P @ 49 # S) =
         search True (snd accusedHeadingRe) (if P = [] then p else Some (last P)) (49 # S)"
proof (rule search_skip)
  fix q a p'
  assume "P = a @ p'" "p' \<noteq> []"
  then show "exec True [Run (snd accusedHeadingRe)] q (p' @ 49 # S) [] = None"
    using no_match_before[OF assms, of 49 a p' q S] accusedHeading_shape by fastforce
qed

lemma complainantBlock_found:
  assumes "\<not> occursIn (lang True (snd complainantHeadingRe)) P"
  shows "complainantBlockOf (P @ js ''1. Complainant Details\<newline>Name: Rajesh Kumar, Age: 34\<newline>2. Accused Details\<newline>Name: Unknown\<newline>'' @ Q) =
         js ''1. Complainant Details\<newline>Name: Rajesh Kumar, Age: 34\<newline>''"
  using complainantHeading_first[OF assms, of None]
  by (simp add: complainantBlockOf_def sliceBetween_def reSearch_def reMatch_def js_def
        complainantHeadingRe_def re_defs ch_defs)

lemma accusedBlock_found:
  assumes "\<not> occursIn (lang True (snd accusedHeadingRe)) P"
  shows "\<exists>U. accusedBlockOf (P @ js ''1. Complainant Details\<newline>Name: Rajesh Kumar, Age: 34\<newline>2. Accused Details\<newline>Name: Unknown\<newline>'' @ Q) =
           js ''2. Accused Details\<newline>Name: Unknown\<newline>'' @ U"
proof (cases "search True (Seq (Cls [Ch 51]) (Seq (Cls [Ch 46]) Eps)) (Some 10) Q")
  case None
  then show ?thesis
    using accusedHeading_first[OF assms, of None]
    by (simp add: accusedBlockOf_def sliceBetween_def reSearch_def reMatch_def js_def
          accusedHeadingRe_def re_defs ch_defs)
next
  case (Some r)
  then obtain s0 p s1 c where r: "r = (s0, p, s1, c)" by (cases r) auto
  have le: "length s0 \<le> length Q" using Some r search_length by blast
  show ?thesis
    using Some r le accusedHeading_first[OF assms, of None]
    by (simp add: accusedBlockOf_def sliceBetween_def reSearch_def reMatch_def js_def
          accusedHeadingRe_def re_defs ch_defs Let_def Suc_diff_le min_def)
qed

lemma crlf_Cons_other: "x \<noteq> 13 \<Longrightarrow> crlf (x # s) = x # crlf s"
  by (cases s) auto

lemma complainantName_block:
  "match1 complainantNameRe (js ''1. Complainant Details\<newline>Name: Rajesh Kumar, Age: 34\<newline>'') =
   Some (js ''Rajesh Kumar'')"
  by code_simp

lemma accusedName_block:
  "match1 accusedNameRe (js ''2. Accused Details\<newline>Name: Unknown\<newline>'' @ U) = Some (js ''Unknown'')"
  by (simp add: match1_def reMatch_def grp_def accusedNameRe_def js_def re_defs ch_defs
        split: option.splits)

lemma trim_names: "trim (js ''Rajesh Kumar'') = js ''Rajesh Kumar''" "trim (js ''Unknown'') = js ''Unknown''"
  by code_simp+

lemma normText_around_block:
  "normText (pre @ js ''1. Complainant Details\<newline>Name: Rajesh Kumar, Age: 34\<newline>2. Accused Details\<newline>Name: Unknown\<newline>'' @ post) =
   normText pre @ js ''1. Complainant Details\<newline>Name: Rajesh Kumar, Age: 34\<newline>2. Accused Details\<newline>Name: Unknown\<newline>'' @ normText post"
proof -
  have "crlf (pre @ js ''1. Complainant Details\<newline>Name: Rajesh Kumar, Age: 34\<newline>2. Accused Details\<newline>Name: Unknown\<newline>'' @ post) =
        crlf pre @ crlf (js ''1. Complainant Details\<newline>Name: Rajesh Kumar, Age: 34\<newline>2. Accused Details\<newline>Name: Unknown\<newline>'' @ post)"
    by (rule crlf_append) (simp add: js_def)
  then show ?thesis
    by (simp add: normText_crlf js_def crlf_Cons_other)
qed

text \<open>
  Claim C8, as amended. The block may stand anywhere in the input. When no part of the
  text before it (line endings normalised) has the form of the complainant heading, that
  is \<open>1.\<close>, white space, \<open>Complainant\<close>, white space, \<open>Details\<close> in any letter case, the
  complainant is \<open>Rajesh Kumar\<close>; when no part of it has the form of the accused heading
  \<open>2.\<close>, white space, \<open>Accused\<close>, white space, \<open>Details\<close>, the accused is \<open>Unknown\<close>.
\<close>

theorem complainant_block_first_heading:
  "let r = parseFIR (pre @ js ''1. Complainant Details\<newline>Name: Rajesh Kumar, Age: 34\<newline>2. Accused Details\<newline>Name: Unknown\<newline>'' @ post)
   in (\<not> occursIn (lang True (snd complainantHeadingRe)) (normText pre) \<longrightarrow>
         complainant (entities r) = js ''Rajesh Kumar'') \<and>
      (\<not> occursIn (lang True (snd accusedHeadingRe)) (normText pre) \<longrightarrow>
         accused (entities r) = js ''Unknown'')"
proof -
  define blk where "blk = js ''1. Complainant Details\<newline>Name: Rajesh Kumar, Age: 34\<newline>2. Accused Details\<newline>Name: Unknown\<newline>''"
  define nt where "nt = normText (pre @ blk @ post)"
  have nt: "nt = normText pre @ blk @ normText post"
    unfolding nt_def blk_def by (rule normText_around_block)
  have "\<not> list_all isSpace (pre @ blk @ post)"
    by (simp add: blk_def js_def isSpace_def)
  then have nb: "\<not> (pre @ blk @ post = [] \<or> trim (pre @ blk @ post) = [])"
    by (rule not_blank)
  have c: "complainantOf nt flat = js ''Rajesh Kumar''"
    if "\<not> occursIn (lang True (snd complainantHeadingRe)) (normText pre)" for flat
    unfolding complainantOf_def nt blk_def complainantBlock_found[OF that] complainantName_block
    by (simp add: orUndef_def orElse_def trim_names) (simp add: js_def)
  have a: "accusedOf nt flat = js ''Unknown''"
    if h: "\<not> occursIn (lang True (snd accusedHeadingRe)) (normText pre)" for flat
  proof -
    obtain U where U: "accusedBlockOf nt = js ''2. Accused Details\<newline>Name: Unknown\<newline>'' @ U"
      unfolding nt blk_def using accusedBlock_found[OF h] by blast
    show ?thesis
      unfolding accusedOf_def U accusedName_block
      by (simp add: orUndef_def orElse_def trim_names) (simp add: js_def)
  qed
  have n: "js ''Rajesh Kumar'' \<noteq> []" "js ''Unknown'' \<noteq> []" "blk \<noteq> []"
    by (simp_all add: js_def blk_def)
  show ?thesis
    unfolding blk_def[symmetric] Let_def
    using nb n c a by (simp add: parseFIR_def Let_def nt_def[symmetric] orElse_def)
qed

lemma adjacent_append: "adjacent x y (a @ x # y # r)"
  by (induction a rule: adjacent.induct) auto

lemma occurs_adjacent:
  assumes "\<And>u. u \<in> L \<Longrightarrow> \<exists>v. u = x # y # v" and "occursIn L s"
  shows "adjacent x y s"
proof -
  from assms(2) obtain a u b where "s = a @ u @ b" "u \<in> L" by (auto simp: occursIn_def)
  then obtain v where "s = a @ x # y # (v @ b)" using assms(1) by fastforce
  then show ?thesis using adjacent_append by simp
qed

theorem complainant_block_first_heading_witness:
  "\<not> occursIn (lang True (snd complainantHeadingRe)) (normText (js ''FIR No: 45/2024\<newline>'')) \<and>
   \<not> occursIn (lang True (snd accusedHeadingRe)) (normText (js ''FIR No: 45/2024\<newline>'')) \<and>
   complainant (entities (parseFIR (js ''FIR No: 45/2024\<newline>'' @ js ''1. Complainant Details\<newline>Name: Rajesh Kumar, Age: 34\<newline>2. Accused Details\<newline>Name: Unknown\<newline>'' @ js ''3. Incident Details''))) =
     js ''Rajesh Kumar'' \<and>
   accused (entities (parseFIR (js ''FIR No: 45/2024\<newline>'' @ js ''1. Complainant Details\<newline>Name: Rajesh Kumar, Age: 34\<newline>2. Accused Details\<newline>Name: Unknown\<newline>'' @ js ''3. Incident Details''))) =
     js ''Unknown''"
proof -
  have p: "normText (js ''FIR No: 45/2024\<newline>'') = js ''FIR No: 45/2024\<newline>''"
    by (simp add: normText_crlf js_def)
  have "\<not> adjacent 49 46 (js ''FIR No: 45/2024\<newline>'')" "\<not> adjacent 50 46 (js ''FIR No: 45/2024\<newline>'')"
    by (simp_all add: js_def)
  then have h: "\<not> occursIn (lang True (snd complainantHeadingRe)) (normText (js ''FIR No: 45/2024\<newline>''))"
    "\<not> occursIn (lang True (snd accusedHeadingRe)) (normText (js ''FIR No: 45/2024\<newline>''))"
    unfolding p
    using occurs_adjacent[of "lang True (snd complainantHeadingRe)" 49 46 "js ''FIR No: 45/2024\<newline>''"]
      occurs_adjacent[of "lang True (snd accusedHeadingRe)" 50 46 "js ''FIR No: 45/2024\<newline>''"]
      complainantHeading_shape accusedHeading_shape
    by blast+
  show ?thesis
    using complainant_block_first_heading[of "js ''FIR No: 45/2024\<newline>''" "js ''3. Incident Details''"] h
    by (simp add: Let_def)
qed

text \<open>
  Claim C8 as stated fails when another complainant heading comes before the block: the
  first heading decides.
\<close>

theorem complainant_block_counterexample:
  "complainant (entities (parseFIR
      (js ''1. Complainant Details Name: Bob\<newline>2. 1. Complainant Details\<newline>Name: Rajesh Kumar, Age: 34\<newline>2. Accused Details\<newline>Name: Unknown\<newline>''))) =
     js ''Bob''"
  by code_simp

subsection \<open>Finding a citation\<close>



























end
